theory Spec2Isabelle
  imports Complex_Main "HOL-Library.AList"
begin

section \<open>MCPC helper: the task registry and the notifier of \<open>mcpc/helper.py\<close>\<close>

text \<open>
  The class \<open>MCPCHelper\<close> keeps a dictionary \<open>background_tasks\<close> from task ids to task
  records. A task record is itself a dictionary object (\<open>Dict[str, Any]\<close>), and
  \<open>check_task\<close> hands the stored object to its caller, so the model keeps dictionary
  objects in an explicit store: the registry maps a task id to the address of its record.
  Thread objects live in a second table. What the code asks of its surroundings
  (\<open>time.time()\<close>, \<open>Thread.is_alive()\<close>, the serialisation of the envelope, the
  outcome of writing to \<open>sys.stdout\<close>) is a parameter of the operation that asks.
\<close>

subsection \<open>Python values and dictionaries\<close>

type_synonym ref = nat
type_synonym tid = nat

text \<open>
  The values stored in a record or passed as a payload. \<open>PyThread t\<close> is (a reference
  to) the thread object \<open>t\<close>; \<open>PyList\<close> and \<open>PyDict\<close> are payload values. The
  float of \<open>time.time()\<close> is only stored, never computed with.
\<close>

datatype pyval =
    PyNone
  | PyBool bool
  | PyInt int
  | PyFloat real
  | PyStr string
  | PyList "pyval list"
  | PyDict "(string \<times> pyval) list"
  | PyThread tid

text \<open>
  A dictionary is an association list in insertion order: \<open>map_of d k\<close> is \<open>d.get(k)\<close>,
  \<open>AList.update k v d\<close> is \<open>d[k] = v\<close> (an existing key keeps its place, a new one goes
  to the end) and \<open>AList.delete k d\<close> is \<open>d.pop(k, None)\<close>.
\<close>

type_synonym pydict = "(string \<times> pyval) list"

text \<open>Python's truth value of an object, as \<open>if thread:\<close> tests it.\<close>

fun truthy :: "pyval \<Rightarrow> bool" where
  "truthy PyNone = False"
| "truthy (PyBool b) = b"
| "truthy (PyInt i) = (i \<noteq> 0)"
| "truthy (PyFloat x) = (x \<noteq> 0)"
| "truthy (PyStr s) = (s \<noteq> [])"
| "truthy (PyList xs) = (xs \<noteq> [])"
| "truthy (PyDict d) = (d \<noteq> [])"
| "truthy (PyThread t) = True"

text \<open>The exceptions (all subclasses of \<open>Exception\<close>) with their messages.\<close>

datatype exn =
    AttributeError string
  | ValidationError string
  | PydanticSerializationError string
  | ValueError string
  | OSError string
  | UnicodeEncodeError string

fun str_exn :: "exn \<Rightarrow> string" where
  "str_exn (AttributeError m) = m"
| "str_exn (ValidationError m) = m"
| "str_exn (PydanticSerializationError m) = m"
| "str_exn (ValueError m) = m"
| "str_exn (OSError m) = m"
| "str_exn (UnicodeEncodeError m) = m"

subsection \<open>Threads, the log and the output stream\<close>

text \<open>
  \<open>worker_func\<close> is known to \<open>start_task\<close> only through
  \<open>asyncio.iscoroutinefunction\<close>; the wrapper closes over it and its arguments.
\<close>

datatype callable = Callable (iscoroutinefunction: bool) (qualname: string)

datatype target_func =
    async_wrapper callable "pyval list" pydict
  | sync_wrapper callable "pyval list" pydict

record thread_obj =
  target :: target_func
  daemon :: bool
  started :: bool

datatype level = INFO | ERROR

text \<open>
  \<open>sys.stdout\<close>: text written and not yet flushed, and text that has left the process.
\<close>

record stream =
  pending :: string
  delivered :: string

subsection \<open>The state\<close>

record world =
  provider_name :: string
  background_tasks :: "(string \<times> ref) list"
  heap :: "pydict list"
  threads :: "thread_obj list"
  log_records :: "(level \<times> string) list"
  stdout :: stream

text \<open>
  Reading the dictionary object at an address. Python has no dangling reference; the
  model reads an address that was never allocated as the empty dictionary.
\<close>

definition deref :: "world \<Rightarrow> ref \<Rightarrow> pydict" where
  "deref w r = (if r < length (heap w) then heap w ! r else [])"

text \<open>A dictionary display \<open>{...}\<close> creates a new object.\<close>

definition new_dict :: "pydict \<Rightarrow> world \<Rightarrow> ref \<times> world" where
  "new_dict d w = (length (heap w), w\<lparr>heap := heap w @ [d]\<rparr>)"

text \<open>\<open>obj[k] = v\<close> on the dictionary object at \<open>r\<close>.\<close>

definition setitem :: "ref \<Rightarrow> string \<Rightarrow> pyval \<Rightarrow> world \<Rightarrow> world" where
  "setitem r k v w = w\<lparr>heap := (heap w)[r := AList.update k v (deref w r)]\<rparr>"

text \<open>\<open>threading.Thread(target=..., daemon=...)\<close> and \<open>thread.start()\<close>.\<close>

definition new_thread :: "target_func \<Rightarrow> bool \<Rightarrow> world \<Rightarrow> tid \<times> world" where
  "new_thread f d w =
     (length (threads w),
      w\<lparr>threads := threads w @ [\<lparr>target = f, daemon = d, started = False\<rparr>]\<rparr>)"

definition thread_start :: "tid \<Rightarrow> world \<Rightarrow> world" where
  "thread_start t w =
     (if t < length (threads w)
      then w\<lparr>threads := (threads w)[t := (threads w ! t)\<lparr>started := True\<rparr>]\<rparr>
      else w)"

definition logger_info :: "string \<Rightarrow> world \<Rightarrow> world" where
  "logger_info m w = w\<lparr>log_records := log_records w @ [(INFO, m)]\<rparr>"

definition logger_error :: "string \<Rightarrow> world \<Rightarrow> world" where
  "logger_error m w = w\<lparr>log_records := log_records w @ [(ERROR, m)]\<rparr>"

subsection \<open>The task registry\<close>

text \<open>\<open>MCPCHelper(provider_name)\<close>, that is \<open>__init__\<close>.\<close>

definition MCPCHelper :: "string \<Rightarrow> world" where
  "MCPCHelper name =
     \<lparr>provider_name = name, background_tasks = [], heap = [], threads = [],
      log_records = [(INFO, ''Initialized MCPC helper for provider: '' @ name)],
      stdout = \<lparr>pending = [], delivered = []\<rparr>\<rparr>"

text \<open>
  \<open>start_task(task_id, worker_func, args, kwargs)\<close>; \<open>now\<close> is what \<open>time.time()\<close>
  returns. The thread object is created, the record is stored under \<open>task_id\<close>, then
  the thread is started. Creating and starting the thread are taken to succeed.
\<close>

definition start_task ::
  "string \<Rightarrow> callable \<Rightarrow> pyval list \<Rightarrow> pydict option \<Rightarrow> real \<Rightarrow> world \<Rightarrow> world" where
  "start_task task_id worker_func args kwargs now w =
     (let kwargs' = (case kwargs of None \<Rightarrow> [] | Some d \<Rightarrow> if d \<noteq> [] then d else []);
          target_func =
            (if iscoroutinefunction worker_func
             then async_wrapper worker_func args kwargs'
             else sync_wrapper worker_func args kwargs');
          (thread, w1) = new_thread target_func True w;
          (r, w2) = new_dict [(''thread'', PyThread thread),
                              (''start_time'', PyFloat now),
                              (''status'', PyStr ''running'')] w1;
          w3 = w2\<lparr>background_tasks := AList.update task_id r (background_tasks w2)\<rparr>;
          w4 = thread_start thread w3
      in logger_info (''Started task '' @ task_id) w4)"

text \<open>
  \<open>check_task(task_id)\<close>; \<open>is_alive t\<close> is what \<open>Thread.is_alive()\<close> answers for the
  thread \<open>t\<close> at the time of the call. The result is the address of the dictionary
  returned: on a hit the object stored in the registry, on a miss the new empty
  dictionary that is the default of \<open>get\<close>. (On a hit the default is created too and
  dropped at once; the model allocates it only when it is returned.) A value under
  \<open>thread\<close> that is true and is no thread has no \<open>is_alive\<close>.
\<close>

definition check_task :: "(tid \<Rightarrow> bool) \<Rightarrow> string \<Rightarrow> world \<Rightarrow> (exn + ref) \<times> world" where
  "check_task is_alive task_id w =
     (case map_of (background_tasks w) task_id of
        None \<Rightarrow> (case new_dict [] w of (r, w1) \<Rightarrow> (Inr r, w1))
      | Some r \<Rightarrow>
          (let task_info = deref w r in
           if task_info \<noteq> [] then
             (case map_of task_info ''thread'' of
                None \<Rightarrow> (Inr r, w)
              | Some thread \<Rightarrow>
                  if truthy thread then
                    (case thread of
                       PyThread t \<Rightarrow>
                         (Inr r, setitem r ''is_running'' (PyBool (is_alive t)) w)
                     | _ \<Rightarrow> (Inl (AttributeError ''is_alive''), w))
                  else (Inr r, w))
           else (Inr r, w)))"

text \<open>\<open>stop_task(task_id)\<close>: the membership test, then the item assignment.\<close>

definition stop_task :: "string \<Rightarrow> world \<Rightarrow> bool \<times> world" where
  "stop_task task_id w =
     (case map_of (background_tasks w) task_id of
        Some r \<Rightarrow> (True, setitem r ''status'' (PyStr ''stopping'') w)
      | None \<Rightarrow> (False, w))"

text \<open>\<open>cleanup_task(task_id)\<close>.\<close>

definition cleanup_task :: "string \<Rightarrow> world \<Rightarrow> world" where
  "cleanup_task task_id w =
     (if map_of (background_tasks w) task_id \<noteq> None
      then logger_info (''Cleaned up task '' @ task_id)
             (w\<lparr>background_tasks := AList.delete task_id (background_tasks w)\<rparr>)
      else w)"

subsection \<open>Observing the registry\<close>

text \<open>
  \<open>task_id in self.background_tasks\<close>, the record \<open>self.background_tasks.get(task_id)\<close>
  as the store holds it, and its entry under \<open>status\<close>.
\<close>

definition present :: "world \<Rightarrow> string \<Rightarrow> bool" where
  "present w task_id = (map_of (background_tasks w) task_id \<noteq> None)"

definition record_of :: "world \<Rightarrow> string \<Rightarrow> pydict option" where
  "record_of w task_id = map_option (deref w) (map_of (background_tasks w) task_id)"

definition status_of :: "world \<Rightarrow> string \<Rightarrow> pyval option" where
  "status_of w task_id =
     (case record_of w task_id of None \<Rightarrow> None | Some d \<Rightarrow> map_of d ''status'')"

text \<open>
  What Python guarantees of the registry and what \<open>start_task\<close> maintains: the keys of a
  dictionary are distinct, every stored reference is to an object that exists, and no
  two task ids share one record object.
\<close>

definition wf_world :: "world \<Rightarrow> bool" where
  "wf_world w =
     (distinct (map fst (background_tasks w)) \<and>
      distinct (map snd (background_tasks w)) \<and>
      list_all (\<lambda>r. r < length (heap w)) (map snd (background_tasks w)))"

text \<open>
  The invariant of the data model: a stored record holds a thread object under
  \<open>thread\<close> and \<open>running\<close> or \<open>stopping\<close> under \<open>status\<close>.
\<close>

definition record_ok :: "world \<Rightarrow> ref \<Rightarrow> bool" where
  "record_ok w r =
     ((case map_of (deref w r) ''thread'' of
         Some (PyThread t) \<Rightarrow> t < length (threads w)
       | _ \<Rightarrow> False) \<and>
      (map_of (deref w r) ''status'' = Some (PyStr ''running'') \<or>
       map_of (deref w r) ''status'' = Some (PyStr ''stopping'')))"

definition registry_inv :: "world \<Rightarrow> bool" where
  "registry_inv w = list_all (record_ok w) (map snd (background_tasks w))"

subsection \<open>The notifier\<close>

text \<open>
  The envelope types of \<open>mcp.types\<close>, by position: \<open>TextContent text type\<close>,
  \<open>JSONRPCResponse jsonrpc id result\<close>; \<open>JSONRPCMessage\<close> wraps a response. The
  dictionary \<open>{"content": [...], "isError": False}\<close> is the record \<open>call_result\<close>.
\<close>

datatype TextContent = TextContent string string

record call_result =
  content :: "TextContent list"
  isError :: bool

datatype JSONRPCResponse = JSONRPCResponse string string call_result

datatype JSONRPCMessage = JSONRPCMessage JSONRPCResponse

text \<open>
  What one call of \<open>send_direct\<close> meets outside the helper: \<open>model_dump_json\<close> returns
  the serialised text or raises; \<open>sys.stdout.write\<close> succeeds or raises after some
  prefix of the text was taken; \<open>sys.stdout.flush\<close> succeeds or raises.
\<close>

record io_env =
  model_dump_json :: "JSONRPCMessage \<Rightarrow> exn + string"
  write_outcome :: "(exn \<times> nat) option"
  flush_outcome :: "exn option"

definition stdout_write :: "io_env \<Rightarrow> string \<Rightarrow> world \<Rightarrow> exn option \<times> world" where
  "stdout_write env s w =
     (case write_outcome env of
        None \<Rightarrow> (None, w\<lparr>stdout := (stdout w)\<lparr>pending := pending (stdout w) @ s\<rparr>\<rparr>)
      | Some (e, n) \<Rightarrow>
          (Some e, w\<lparr>stdout := (stdout w)\<lparr>pending := pending (stdout w) @ take n s\<rparr>\<rparr>))"

definition stdout_flush :: "io_env \<Rightarrow> world \<Rightarrow> exn option \<times> world" where
  "stdout_flush env w =
     (case flush_outcome env of
        None \<Rightarrow>
          (None, w\<lparr>stdout := \<lparr>pending = [],
                                delivered = delivered (stdout w) @ pending (stdout w)\<rparr>\<rparr>)
      | Some e \<Rightarrow> (Some e, w))"

text \<open>
  The body of the \<open>try\<close> of \<open>send_direct\<close>: \<open>Inl e\<close> when a step raises \<open>e\<close>, with
  the state as that step left it.
\<close>

definition send_direct_try :: "io_env \<Rightarrow> string \<Rightarrow> world \<Rightarrow> (exn + bool) \<times> world" where
  "send_direct_try env message w =
     (let text_content = TextContent message ''text'';
          mcpc_message = \<lparr>content = [text_content], isError = False\<rparr>;
          jsonrpc_response = JSONRPCResponse ''2.0'' ''MCPC_CALLBACK'' mcpc_message;
          json_message = JSONRPCMessage jsonrpc_response
      in case model_dump_json env json_message of
           Inl e \<Rightarrow> (Inl e, w)
         | Inr serialized \<Rightarrow>
             (case stdout_write env (serialized @ [CHR 0x0A]) w of
                (Some e, w1) \<Rightarrow> (Inl e, w1)
              | (None, w1) \<Rightarrow>
                  (case stdout_flush env w1 of
                     (Some e, w2) \<Rightarrow> (Inl e, w2)
                   | (None, w2) \<Rightarrow>
                       (Inr True,
                        logger_info
                          (''Sent direct message: '' @ take 100 serialized @ ''...'') w2))))"

text \<open>
  \<open>send_direct(message)\<close>, awaited: the body has no \<open>await\<close>, so it runs in one piece.
  \<open>except Exception\<close> logs the error and returns \<open>False\<close>.
\<close>

definition send_direct :: "io_env \<Rightarrow> string \<Rightarrow> world \<Rightarrow> (exn + bool) \<times> world" where
  "send_direct env message w =
     (case send_direct_try env message w of
        (Inl e, w') \<Rightarrow>
          (Inr False, logger_error (''Error sending direct message: '' @ str_exn e) w')
      | (Inr b, w') \<Rightarrow> (Inr b, w'))"

subsection \<open>Sequences of calls\<close>

datatype call =
    StartTask string callable "pyval list" "pydict option" real
  | CheckTask "tid \<Rightarrow> bool" string
  | StopTask string
  | CleanupTask string
  | SendDirect io_env string

fun apply_call :: "call \<Rightarrow> world \<Rightarrow> world" where
  "apply_call (StartTask task_id worker_func args kwargs now) w =
     start_task task_id worker_func args kwargs now w"
| "apply_call (CheckTask is_alive task_id) w = snd (check_task is_alive task_id w)"
| "apply_call (StopTask task_id) w = snd (stop_task task_id w)"
| "apply_call (CleanupTask task_id) w = cleanup_task task_id w"
| "apply_call (SendDirect env message) w = snd (send_direct env message w)"

fun run :: "call list \<Rightarrow> world \<Rightarrow> world" where
  "run [] w = w"
| "run (c # cs) w = run cs (apply_call c w)"

text \<open>The task ids that a sequence of calls passes to \<open>start_task\<close>.\<close>

fun started_ids :: "call list \<Rightarrow> string list" where
  "started_ids [] = []"
| "started_ids (StartTask task_id worker_func args kwargs now # cs) = task_id # started_ids cs"
| "started_ids (c # cs) = started_ids cs"

subsection \<open>Status messages\<close>

datatype msg_status = task_created | task_update | task_complete | task_failed

text \<open>
  Modelled from the spec: the class \<open>MCPCMessage\<close> is declared in the package's
  \<open>__init__\<close>, which is not among the sources. The spec gives a status message the
  fields \<open>session_id\<close>, \<open>task_id\<close>, \<open>tool_name\<close>, \<open>result\<close> (an arbitrary payload, which
  may be absent: \<open>PyNone\<close>) and \<open>status\<close> (one of four values).
\<close>

record MCPCMessage =
  session_id :: string
  task_id :: string
  tool_name :: string
  result :: pyval
  status :: msg_status

text \<open>
  \<open>create_message(tool_name, session_id, task_id, result, status)\<close>, a method of the
  helper: it takes the state and returns it with the message.
\<close>

definition create_message ::
  "string \<Rightarrow> string \<Rightarrow> string \<Rightarrow> pyval \<Rightarrow> msg_status \<Rightarrow> world \<Rightarrow> MCPCMessage \<times> world" where
  "create_message tool_name' session_id' task_id' result' status' w =
     (\<lparr>session_id = session_id', task_id = task_id', tool_name = tool_name',
       result = result', status = status'\<rparr>, w)"

subsection \<open>Example states\<close>

text \<open>
  A helper with no task, with the task \<open>t1\<close> (a synchronous worker), and with \<open>t1\<close>
  and \<open>t2\<close> (a coroutine function with arguments).
\<close>

definition workA :: callable where
  "workA = Callable False ''workA''"

definition workB :: callable where
  "workB = Callable True ''workB''"

definition world0 :: world where
  "world0 = MCPCHelper ''demo''"

definition world1 :: world where
  "world1 = start_task ''t1'' workA [] None 1000 world0"

definition world2 :: world where
  "world2 = start_task ''t2'' workB [PyInt 1] (Some [(''n'', PyInt 2)]) 1001 world1"

text \<open>
  Two answers of the runtime to \<open>is_alive\<close> (every thread still runs; every thread has
  finished), and the calls that lead from \<open>world0\<close> to \<open>world2\<close>.
\<close>

definition always_alive :: "tid \<Rightarrow> bool" where
  "always_alive t = True"

definition never_alive :: "tid \<Rightarrow> bool" where
  "never_alive t = False"

definition calls2 :: "call list" where
  "calls2 =
     [StartTask ''t1'' workA [] None 1000,
      StartTask ''t2'' workB [PyInt 1] (Some [(''n'', PyInt 2)]) 1001]"

text \<open>
  Three surroundings of \<open>send_direct\<close> for the examples: one where every step succeeds
  (its serialiser lists the fields of the envelope, without JSON quoting), one where
  \<open>sys.stdout\<close> is closed, and one where the flush fails.
\<close>

fun demo_dump_json :: "JSONRPCMessage \<Rightarrow> exn + string" where
  "demo_dump_json (JSONRPCMessage (JSONRPCResponse v i r)) =
     (case content r of
        [TextContent t ty] \<Rightarrow>
          Inr (''{jsonrpc:'' @ v @ '',id:'' @ i @ '',result:{'' @ ty @ '':'' @ t @ ''}}'')
      | _ \<Rightarrow> Inl (PydanticSerializationError ''content''))"

definition env_ok :: io_env where
  "env_ok =
     \<lparr>model_dump_json = demo_dump_json, write_outcome = None, flush_outcome = None\<rparr>"

definition env_closed :: io_env where
  "env_closed =
     \<lparr>model_dump_json = demo_dump_json,
      write_outcome = Some (ValueError ''I/O operation on closed file.'', 0),
      flush_outcome = None\<rparr>"

definition env_pipe :: io_env where
  "env_pipe =
     \<lparr>model_dump_json = demo_dump_json, write_outcome = None,
      flush_outcome = Some (OSError ''Broken pipe'')\<rparr>"

section \<open>Properties\<close>

subsection \<open>What each operation does to each part of the state\<close>

lemma start_task_background_tasks:
  "background_tasks (start_task tid f args kwargs now w) =
     AList.update tid (length (heap w)) (background_tasks w)"
  by (simp add: start_task_def Let_def new_thread_def new_dict_def thread_start_def
      logger_info_def)

lemma start_task_heap:
  "heap (start_task tid f args kwargs now w) =
     heap w @ [[(''thread'', PyThread (length (threads w))),
                (''start_time'', PyFloat now),
                (''status'', PyStr ''running'')]]"
  by (simp add: start_task_def Let_def new_thread_def new_dict_def thread_start_def
      logger_info_def)

lemma start_task_threads:
  "threads (start_task tid f args kwargs now w) =
     threads w @
       [\<lparr>target =
           (if iscoroutinefunction f
            then async_wrapper f args (case kwargs of None \<Rightarrow> [] | Some d \<Rightarrow> d)
            else sync_wrapper f args (case kwargs of None \<Rightarrow> [] | Some d \<Rightarrow> d)),
         daemon = True, started = True\<rparr>]"
  by (simp add: start_task_def Let_def new_thread_def new_dict_def thread_start_def
      logger_info_def split: option.splits)

lemma start_task_rest:
  "log_records (start_task tid f args kwargs now w) =
     log_records w @ [(INFO, ''Started task '' @ tid)]"
  "stdout (start_task tid f args kwargs now w) = stdout w"
  "provider_name (start_task tid f args kwargs now w) = provider_name w"
  by (simp_all add: start_task_def Let_def new_thread_def new_dict_def thread_start_def
      logger_info_def)

lemma setitem_fields:
  "background_tasks (setitem r k v w) = background_tasks w"
  "threads (setitem r k v w) = threads w"
  "log_records (setitem r k v w) = log_records w"
  "stdout (setitem r k v w) = stdout w"
  "length (heap (setitem r k v w)) = length (heap w)"
  by (simp_all add: setitem_def)

lemma deref_setitem:
  "deref (setitem r k v w) r' =
     (if r' = r \<and> r < length (heap w) then AList.update k v (deref w r) else deref w r')"
  by (simp add: setitem_def deref_def)

lemma deref_update:
  "deref (w\<lparr>background_tasks := b\<rparr>) = deref w"
  "deref (w\<lparr>threads := ts\<rparr>) = deref w"
  "deref (w\<lparr>log_records := l\<rparr>) = deref w"
  "deref (w\<lparr>stdout := s\<rparr>) = deref w"
  by (rule ext, simp add: deref_def)+

lemma check_task_background_tasks:
  "background_tasks (snd (check_task a tid w)) = background_tasks w"
  by (simp add: check_task_def Let_def new_dict_def setitem_fields
      split: option.splits pyval.splits)

lemma stop_task_background_tasks:
  "background_tasks (snd (stop_task tid w)) = background_tasks w"
  by (simp add: stop_task_def setitem_fields split: option.splits)

lemma send_direct_fields:
  "background_tasks (snd (send_direct env m w)) = background_tasks w"
  "heap (snd (send_direct env m w)) = heap w"
  "threads (snd (send_direct env m w)) = threads w"
  by (simp_all add: send_direct_def send_direct_try_def Let_def stdout_write_def
      stdout_flush_def logger_info_def logger_error_def
      split: sum.splits prod.splits option.splits)

lemma present_iff: "present w tid \<longleftrightarrow> tid \<in> fst ` set (background_tasks w)"
  by (simp add: present_def map_of_eq_None_iff)

lemma wf_world_ref:
  "wf_world w \<Longrightarrow> map_of (background_tasks w) tid = Some r \<Longrightarrow> r < length (heap w)"
  by (auto simp: wf_world_def list_all_iff dest!: map_of_SomeD)

subsection \<open>Well-formed states and the invariant of the registry\<close>

lemma snd_set_update: "snd ` set (AList.update k v al) \<subseteq> insert v (snd ` set al)"
  by (induction al) (auto simp: image_iff)

lemma in_set_update:
  "p \<in> set (AList.update k v al) \<Longrightarrow> snd p = v \<or> p \<in> set al"
  by (induction al) (auto split: if_splits)

lemma in_set_delete: "p \<in> set (AList.delete k al) \<Longrightarrow> p \<in> set al"
  by (simp add: AList.delete_eq)

lemma distinct_snd_update:
  "distinct (map snd al) \<Longrightarrow> v \<notin> snd ` set al \<Longrightarrow> distinct (map snd (AList.update k v al))"
proof (induction al)
  case Nil
  then show ?case by simp
next
  case (Cons p al)
  obtain k' v' where p: "p = (k', v')" by (cases p)
  show ?case
  proof (cases "k' = k")
    case True
    with Cons.prems p show ?thesis by auto
  next
    case False
    from Cons.prems p have "v' \<notin> snd ` set al" "v' \<noteq> v" by auto
    with snd_set_update [of k v al] have "v' \<notin> snd ` set (AList.update k v al)" by auto
    with Cons False p show ?thesis by auto
  qed
qed

lemma distinct_snd_delete:
  "distinct (map snd al) \<Longrightarrow> distinct (map snd (AList.delete k al))"
  by (simp add: AList.delete_eq distinct_map_filter)

lemma snd_set_delete: "snd ` set (AList.delete k al) \<subseteq> snd ` set al"
  by (auto simp: AList.delete_eq)

lemma deref_start_task:
  "deref (start_task tid f args kwargs now w) r =
     (if r = length (heap w)
      then [(''thread'', PyThread (length (threads w))), (''start_time'', PyFloat now),
            (''status'', PyStr ''running'')]
      else deref w r)"
  by (simp add: deref_def start_task_heap nth_append)

lemma wf_world_start_task:
  assumes "wf_world w"
  shows "wf_world (start_task tid f args kwargs now w)"
proof -
  from assms have fresh: "length (heap w) \<notin> snd ` set (background_tasks w)"
    by (auto simp: wf_world_def list_all_iff)
  have "\<forall>p \<in> set (AList.update tid (length (heap w)) (background_tasks w)).
          snd p < Suc (length (heap w))"
    using assms
    by (auto simp: wf_world_def list_all_iff less_Suc_eq dest!: in_set_update)
  with assms fresh show ?thesis
    by (simp add: wf_world_def start_task_background_tasks start_task_heap distinct_update
        distinct_snd_update list_all_iff)
qed

lemma check_task_heap_length:
  "length (heap w) \<le> length (heap (snd (check_task a tid w)))"
  by (simp add: check_task_def Let_def new_dict_def setitem_fields
      split: option.splits pyval.splits)

lemma wf_world_check_task:
  assumes "wf_world w"
  shows "wf_world (snd (check_task a tid w))"
  using assms check_task_heap_length [of w a tid]
  by (auto simp: wf_world_def check_task_background_tasks list_all_iff)

lemma wf_world_stop_task:
  "wf_world w \<Longrightarrow> wf_world (snd (stop_task tid w))"
  by (simp add: wf_world_def stop_task_def setitem_fields split: option.splits)

lemma wf_world_cleanup_task:
  assumes "wf_world w"
  shows "wf_world (cleanup_task tid w)"
  using assms
  by (auto simp: wf_world_def cleanup_task_def logger_info_def distinct_delete
      distinct_snd_delete list_all_iff dest!: in_set_delete)

lemma wf_world_send_direct:
  "wf_world w \<Longrightarrow> wf_world (snd (send_direct env m w))"
  by (simp add: wf_world_def send_direct_fields)

lemma wf_world_apply_call: "wf_world w \<Longrightarrow> wf_world (apply_call c w)"
  by (cases c)
    (simp_all add: wf_world_start_task wf_world_check_task wf_world_stop_task
      wf_world_cleanup_task wf_world_send_direct)

lemma wf_world_MCPCHelper: "wf_world (MCPCHelper name)"
  by (simp add: wf_world_def MCPCHelper_def)

lemma wf_world_run: "wf_world w \<Longrightarrow> wf_world (run cs w)"
  by (induction cs arbitrary: w) (simp_all add: wf_world_apply_call)


lemma record_ok_mono:
  assumes "record_ok w r"
    and "map_of (deref w' r) ''thread'' = map_of (deref w r) ''thread''"
    and "map_of (deref w' r) ''status'' = map_of (deref w r) ''status'' \<or>
         map_of (deref w' r) ''status'' = Some (PyStr ''stopping'')"
    and "length (threads w) \<le> length (threads w')"
  shows "record_ok w' r"
  using assms by (auto simp: record_ok_def split: option.splits pyval.splits)

lemma check_task_threads: "threads (snd (check_task a tid w)) = threads w"
  by (simp add: check_task_def Let_def new_dict_def setitem_fields
      split: option.splits pyval.splits)

lemma deref_new_empty: "deref (w\<lparr>heap := heap w @ [[]]\<rparr>) r = deref w r"
  by (simp add: deref_def nth_append less_Suc_eq)

lemma check_task_keeps_keys:
  "k \<noteq> ''is_running'' \<Longrightarrow>
     map_of (deref (snd (check_task a tid w)) r') k = map_of (deref w r') k"
  by (simp add: check_task_def Let_def new_dict_def deref_setitem update_conv'
      deref_new_empty split: option.splits pyval.splits)

lemma stop_task_threads: "threads (snd (stop_task tid w)) = threads w"
  by (simp add: stop_task_def setitem_fields split: option.splits)

lemma stop_task_keeps_keys:
  "k \<noteq> ''status'' \<Longrightarrow>
     map_of (deref (snd (stop_task tid w)) r') k = map_of (deref w r') k"
  by (simp add: stop_task_def deref_setitem update_conv' split: option.splits)

lemma stop_task_status:
  "map_of (deref (snd (stop_task tid w)) r') ''status'' = map_of (deref w r') ''status'' \<or>
   map_of (deref (snd (stop_task tid w)) r') ''status'' = Some (PyStr ''stopping'')"
  by (simp add: stop_task_def deref_setitem update_conv' split: option.splits)

lemma registry_inv_start_task:
  assumes "wf_world w" "registry_inv w"
  shows "registry_inv (start_task tid f args kwargs now w)"
proof -
  have "record_ok (start_task tid f args kwargs now w) (snd p)"
    if "p \<in> set (AList.update tid (length (heap w)) (background_tasks w))" for p
  proof -
    from in_set_update [OF that] show ?thesis
    proof
      assume "snd p = length (heap w)"
      then show ?thesis
        by (simp add: record_ok_def deref_start_task start_task_threads)
    next
      assume p: "p \<in> set (background_tasks w)"
      with assms have "snd p < length (heap w)" "record_ok w (snd p)"
        by (auto simp: wf_world_def registry_inv_def list_all_iff)
      then show ?thesis
        by (auto intro!: record_ok_mono [of w] simp: deref_start_task start_task_threads)
    qed
  qed
  then show ?thesis
    by (simp add: registry_inv_def list_all_iff start_task_background_tasks)
qed

lemma registry_inv_check_task:
  assumes "registry_inv w"
  shows "registry_inv (snd (check_task a tid w))"
proof -
  have "record_ok (snd (check_task a tid w)) r" if "record_ok w r" for r
    using that by (rule record_ok_mono) (simp_all add: check_task_keeps_keys check_task_threads)
  with assms show ?thesis
    by (simp add: registry_inv_def list_all_iff check_task_background_tasks)
qed

lemma registry_inv_stop_task:
  assumes "registry_inv w"
  shows "registry_inv (snd (stop_task tid w))"
proof -
  have "record_ok (snd (stop_task tid w)) r" if "record_ok w r" for r
    using that
    by (rule record_ok_mono)
      (simp_all add: stop_task_keeps_keys stop_task_threads stop_task_status)
  with assms show ?thesis
    by (simp add: registry_inv_def list_all_iff stop_task_background_tasks)
qed

lemma registry_inv_cleanup_task:
  assumes "registry_inv w"
  shows "registry_inv (cleanup_task tid w)"
proof -
  have "record_ok (cleanup_task tid w) r" if "record_ok w r" for r
    using that
    by (rule record_ok_mono) (simp_all add: cleanup_task_def logger_info_def deref_update)
  with assms show ?thesis
    by (auto simp: registry_inv_def list_all_iff cleanup_task_def logger_info_def
        dest!: in_set_delete)
qed

lemma registry_inv_send_direct:
  assumes "registry_inv w"
  shows "registry_inv (snd (send_direct env m w))"
proof -
  have "record_ok (snd (send_direct env m w)) r" if "record_ok w r" for r
    using that
    by (rule record_ok_mono) (simp_all add: send_direct_fields deref_def)
  with assms show ?thesis
    by (simp add: registry_inv_def list_all_iff send_direct_fields)
qed

lemma inv_apply_call:
  assumes "wf_world w \<and> registry_inv w"
  shows "wf_world (apply_call c w) \<and> registry_inv (apply_call c w)"
proof (cases c)
  case (StartTask tid f args kwargs now)
  with assms show ?thesis by (simp add: wf_world_start_task registry_inv_start_task)
next
  case (CheckTask a tid)
  with assms show ?thesis by (simp add: wf_world_check_task registry_inv_check_task)
next
  case (StopTask tid)
  with assms show ?thesis by (simp add: wf_world_stop_task registry_inv_stop_task)
next
  case (CleanupTask tid)
  with assms show ?thesis by (simp add: wf_world_cleanup_task registry_inv_cleanup_task)
next
  case (SendDirect env m)
  with assms show ?thesis by (simp add: wf_world_send_direct registry_inv_send_direct)
qed

lemma inv_run:
  "wf_world w \<and> registry_inv w \<Longrightarrow> wf_world (run cs w) \<and> registry_inv (run cs w)"
proof (induction cs arbitrary: w)
  case Nil
  then show ?case by simp
next
  case (Cons c cs)
  from inv_apply_call [OF Cons.prems]
  have "wf_world (apply_call c w) \<and> registry_inv (apply_call c w)" .
  from Cons.IH [OF this] show ?case by simp
qed

lemma registry_inv_MCPCHelper: "registry_inv (MCPCHelper name)"
  by (simp add: registry_inv_def MCPCHelper_def)

lemma wf_world_unshared:
  assumes "wf_world w" "map_of (background_tasks w) tid = Some r"
    "map_of (background_tasks w) tid' = Some r'" "tid' \<noteq> tid"
  shows "r' \<noteq> r"
proof
  assume "r' = r"
  from assms(2,3) have "(tid, r) \<in> set (background_tasks w)" "(tid', r') \<in> set (background_tasks w)"
    by (auto dest: map_of_SomeD)
  moreover from assms(1) have "inj_on snd (set (background_tasks w))"
    by (simp add: wf_world_def distinct_map)
  ultimately have "(tid, r) = (tid', r')" using \<open>r' = r\<close>
    by (intro inj_onD [of snd "set (background_tasks w)"]) simp_all
  with assms(4) show False by simp
qed

lemma status_of_check_task:
  "status_of (snd (check_task a tid w)) tid' = status_of w tid'"
  by (simp add: status_of_def record_of_def check_task_background_tasks check_task_keeps_keys
      split: option.splits)

lemma status_of_cleanup_task:
  "status_of (cleanup_task tid w) tid' = (if tid' = tid then None else status_of w tid')"
  by (auto simp: status_of_def record_of_def cleanup_task_def logger_info_def deref_update
      delete_conv' split: option.splits)

lemma deref_send_direct: "deref (snd (send_direct env m w)) = deref w"
  by (rule ext) (simp add: deref_def send_direct_fields)

lemma status_of_send_direct:
  "status_of (snd (send_direct env m w)) tid' = status_of w tid'"
  by (simp add: status_of_def record_of_def send_direct_fields deref_send_direct)

lemma status_of_start_task:
  assumes "wf_world w"
  shows "status_of (start_task tid f args kwargs now w) tid' =
     (if tid' = tid then Some (PyStr ''running'') else status_of w tid')"
proof (cases "tid' = tid")
  case True
  then show ?thesis
    by (simp add: status_of_def record_of_def start_task_background_tasks update_conv'
        deref_start_task)
next
  case False
  show ?thesis
  proof (cases "map_of (background_tasks w) tid'")
    case None
    with False show ?thesis
      by (simp add: status_of_def record_of_def start_task_background_tasks update_conv')
  next
    case (Some r')
    with assms have "r' < length (heap w)" by (simp add: wf_world_ref)
    with False Some show ?thesis
      by (simp add: status_of_def record_of_def start_task_background_tasks update_conv'
          deref_start_task)
  qed
qed

lemma status_of_stop_task:
  assumes "wf_world w"
  shows "status_of (snd (stop_task tid w)) tid' =
     (if tid' = tid \<and> present w tid then Some (PyStr ''stopping'') else status_of w tid')"
proof (cases "map_of (background_tasks w) tid")
  case None
  then show ?thesis by (simp add: stop_task_def present_def)
next
  case (Some r)
  with assms have r: "r < length (heap w)" by (simp add: wf_world_ref)
  show ?thesis
  proof (cases "map_of (background_tasks w) tid'")
    case None
    with Some show ?thesis
      by (auto simp: status_of_def record_of_def stop_task_def setitem_fields)
  next
    case other: (Some r')
    show ?thesis
    proof (cases "tid' = tid")
      case True
      with Some r show ?thesis
        by (simp add: status_of_def record_of_def stop_task_def setitem_fields deref_setitem
            update_conv' present_def)
    next
      case False
      with assms Some other have "r' \<noteq> r" by (rule wf_world_unshared)
      with Some other False show ?thesis
        by (simp add: status_of_def record_of_def stop_task_def setitem_fields deref_setitem)
    qed
  qed
qed

lemma present_apply_call:
  "present (apply_call c w) tid \<Longrightarrow> present w tid \<or> tid \<in> set (started_ids [c])"
  by (cases c)
    (auto simp: present_def start_task_background_tasks update_conv'
      check_task_background_tasks stop_task_background_tasks send_direct_fields
      cleanup_task_def logger_info_def delete_conv' split: if_splits)

lemma started_ids_Cons:
  "set (started_ids (c # cs)) = set (started_ids [c]) \<union> set (started_ids cs)"
  by (cases c) simp_all

lemma absent_run:
  "\<not> present w tid \<Longrightarrow> tid \<notin> set (started_ids cs) \<Longrightarrow> \<not> present (run cs w) tid"
proof (induction cs arbitrary: w)
  case Nil
  then show ?case by simp
next
  case (Cons c cs)
  from Cons.prems have "tid \<notin> set (started_ids [c])" "tid \<notin> set (started_ids cs)"
    by (simp_all add: started_ids_Cons [of c cs])
  moreover from this(1) Cons.prems(1) have "\<not> present (apply_call c w) tid"
    by (auto dest: present_apply_call)
  ultimately show ?case using Cons.IH by simp
qed

lemma registry_inv_present:
  assumes "registry_inv w" "present w tid"
  shows "\<exists>d t. record_of w tid = Some d \<and> map_of d ''thread'' = Some (PyThread t) \<and>
           t < length (threads w) \<and>
           (map_of d ''status'' = Some (PyStr ''running'') \<or>
            map_of d ''status'' = Some (PyStr ''stopping''))"
proof -
  from assms(2) obtain r where r: "map_of (background_tasks w) tid = Some r"
    by (auto simp: present_def)
  then have "(tid, r) \<in> set (background_tasks w)" by (rule map_of_SomeD)
  with assms(1) have "record_ok w r" by (auto simp: registry_inv_def list_all_iff)
  with r show ?thesis
    by (auto simp: record_ok_def record_of_def split: option.splits pyval.splits)
qed

subsection \<open>The example states, computed\<close>

lemma world0_eq:
  "world0 =
     \<lparr>provider_name = ''demo'', background_tasks = [], heap = [], threads = [],
      log_records = [(INFO, ''Initialized MCPC helper for provider: demo'')],
      stdout = \<lparr>pending = [], delivered = []\<rparr>\<rparr>"
  by (simp add: world0_def MCPCHelper_def)

lemma world1_eq:
  "world1 =
     \<lparr>provider_name = ''demo'', background_tasks = [(''t1'', 0)],
      heap = [[(''thread'', PyThread 0), (''start_time'', PyFloat 1000),
               (''status'', PyStr ''running'')]],
      threads = [\<lparr>target = sync_wrapper workA [] [], daemon = True, started = True\<rparr>],
      log_records = [(INFO, ''Initialized MCPC helper for provider: demo''),
                     (INFO, ''Started task t1'')],
      stdout = \<lparr>pending = [], delivered = []\<rparr>\<rparr>"
  by (simp add: world1_def world0_eq start_task_def Let_def new_thread_def new_dict_def
      thread_start_def logger_info_def workA_def)

lemma world2_eq:
  "world2 =
     \<lparr>provider_name = ''demo'', background_tasks = [(''t1'', 0), (''t2'', 1)],
      heap = [[(''thread'', PyThread 0), (''start_time'', PyFloat 1000),
               (''status'', PyStr ''running'')],
              [(''thread'', PyThread 1), (''start_time'', PyFloat 1001),
               (''status'', PyStr ''running'')]],
      threads = [\<lparr>target = sync_wrapper workA [] [], daemon = True, started = True\<rparr>,
                 \<lparr>target = async_wrapper workB [PyInt 1] [(''n'', PyInt 2)],
                  daemon = True, started = True\<rparr>],
      log_records = [(INFO, ''Initialized MCPC helper for provider: demo''),
                     (INFO, ''Started task t1''), (INFO, ''Started task t2'')],
      stdout = \<lparr>pending = [], delivered = []\<rparr>\<rparr>"
  by (simp add: world2_def world1_eq start_task_def Let_def new_thread_def new_dict_def
      thread_start_def logger_info_def workB_def)

lemma wf_world2: "wf_world world2"
  by (simp add: wf_world_def world2_eq)

lemma run_calls2: "run calls2 (MCPCHelper ''demo'') = world2"
  by (simp add: calls2_def world2_def world1_def world0_def)

subsection \<open>Requesting a stop\<close>

text \<open>
  C4. In every state whose registry holds references to existing records,
  \<open>stop_task(task_id)\<close> returns \<open>True\<close> and leaves \<open>stopping\<close> under \<open>status\<close> in the
  record of \<open>task_id\<close> when the task is present; it returns \<open>False\<close> and leaves the
  whole state as it was when the task is absent; its return value is whether the task
  was present.
\<close>

theorem stop_task_sets_stopping:
  assumes "wf_world w"
  shows "(present w tid \<longrightarrow>
            fst (stop_task tid w) = True \<and>
            status_of (snd (stop_task tid w)) tid = Some (PyStr ''stopping'')) \<and>
         (\<not> present w tid \<longrightarrow> stop_task tid w = (False, w)) \<and>
         fst (stop_task tid w) = present w tid"
proof -
  have hit: "fst (stop_task tid w) = True \<and>
      status_of (snd (stop_task tid w)) tid = Some (PyStr ''stopping'')"
    if "present w tid"
  proof -
    from that obtain r where r: "map_of (background_tasks w) tid = Some r"
      by (auto simp: present_def)
    with assms have "r < length (heap w)" by (rule wf_world_ref)
    with r show ?thesis
      by (simp add: stop_task_def status_of_def record_of_def setitem_fields deref_setitem
          update_conv')
  qed
  have miss: "stop_task tid w = (False, w)" if "\<not> present w tid"
    using that by (simp add: stop_task_def present_def)
  from hit miss show ?thesis by (cases "present w tid") simp_all
qed

theorem stop_task_sets_stopping_witness:
  "wf_world world2 \<and> present world2 ''t2'' \<and>
   fst (stop_task ''t2'' world2) = True \<and>
   status_of (snd (stop_task ''t2'' world2)) ''t2'' = Some (PyStr ''stopping'') \<and>
   \<not> present world2 ''t3'' \<and> stop_task ''t3'' world2 = (False, world2)"
proof -
  have p2: "present world2 ''t2''" and p3: "\<not> present world2 ''t3''"
    by (simp_all add: present_def world2_eq)
  from stop_task_sets_stopping [OF wf_world2, of "''t2''"]
    stop_task_sets_stopping [OF wf_world2, of "''t3''"] p2 p3 wf_world2
  show ?thesis by simp
qed

subsection \<open>Removing a task\<close>

text \<open>
  C5. \<open>cleanup_task(task_id)\<close> has no raising step (the model has no error result): after
  it \<open>task_id\<close> is absent; on an absent \<open>task_id\<close> it changes nothing; a second call
  in succession changes nothing, that is
  \<open>cleanup_task (cleanup_task state) = cleanup_task state\<close>; the records of the other
  task ids stay.
\<close>

theorem cleanup_task_idempotent:
  "\<not> present (cleanup_task tid w) tid \<and>
   (\<not> present w tid \<longrightarrow> cleanup_task tid w = w) \<and>
   cleanup_task tid (cleanup_task tid w) = cleanup_task tid w \<and>
   (\<forall>tid'. tid' \<noteq> tid \<longrightarrow>
      record_of (cleanup_task tid w) tid' = record_of w tid')"
proof -
  have gone: "\<not> present (cleanup_task tid w) tid"
    by (simp add: cleanup_task_def present_def logger_info_def delete_conv')
  have miss: "cleanup_task tid w' = w'" if "\<not> present w' tid" for w'
    using that by (simp add: cleanup_task_def present_def)
  have others: "record_of (cleanup_task tid w) tid' = record_of w tid'"
    if "tid' \<noteq> tid" for tid'
    using that by (simp add: cleanup_task_def record_of_def logger_info_def deref_update)
  from gone miss others show ?thesis by blast
qed

theorem cleanup_task_idempotent_witness:
  "present world2 ''t1'' \<and> \<not> present (cleanup_task ''t1'' world2) ''t1'' \<and>
   cleanup_task ''t1'' (cleanup_task ''t1'' world2) = cleanup_task ''t1'' world2 \<and>
   \<not> present world2 ''t3'' \<and> cleanup_task ''t3'' world2 = world2 \<and>
   record_of (cleanup_task ''t1'' world2) ''t2'' = record_of world2 ''t2'' \<and>
   record_of world2 ''t2'' =
     Some [(''thread'', PyThread 1), (''start_time'', PyFloat 1001),
           (''status'', PyStr ''running'')]"
proof -
  have p1: "present world2 ''t1''" and p3: "\<not> present world2 ''t3''"
    by (simp_all add: present_def world2_eq)
  have r2: "record_of world2 ''t2'' =
     Some [(''thread'', PyThread 1), (''start_time'', PyFloat 1001),
           (''status'', PyStr ''running'')]"
    by (simp add: record_of_def deref_def world2_eq)
  from cleanup_task_idempotent [of "''t1''" world2]
    cleanup_task_idempotent [of "''t3''" world2] p1 p3 r2
  show ?thesis by simp
qed

subsection \<open>Unknown task ids\<close>

text \<open>
  C3. For a task id that is absent from the registry, \<open>check_task\<close> raises nothing and
  returns a new empty dictionary (the state gains that object and nothing else changes),
  and \<open>stop_task\<close> returns \<open>False\<close> and changes nothing. A task id that no call of a
  sequence passed to \<open>start_task\<close> is absent after the sequence, from a new helper.
\<close>

theorem unknown_task_is_no_error:
  "(\<not> present w tid \<longrightarrow>
      check_task a tid w = (Inr (length (heap w)), w\<lparr>heap := heap w @ [[]]\<rparr>) \<and>
      deref (snd (check_task a tid w)) (length (heap w)) = [] \<and>
      stop_task tid w = (False, w)) \<and>
   (tid \<notin> set (started_ids cs) \<longrightarrow> \<not> present (run cs (MCPCHelper name)) tid)"
proof -
  have miss: "check_task a tid w = (Inr (length (heap w)), w\<lparr>heap := heap w @ [[]]\<rparr>) \<and>
      deref (snd (check_task a tid w)) (length (heap w)) = [] \<and>
      stop_task tid w = (False, w)" if "\<not> present w tid"
    using that by (simp add: present_def check_task_def stop_task_def new_dict_def deref_def)
  have "\<not> present (MCPCHelper name) tid"
    by (simp add: present_def MCPCHelper_def)
  then have "\<not> present (run cs (MCPCHelper name)) tid" if "tid \<notin> set (started_ids cs)"
    using that by (rule absent_run)
  with miss show ?thesis by blast
qed

theorem unknown_task_is_no_error_witness:
  "\<not> present world2 ''t3'' \<and>
   fst (check_task always_alive ''t3'' world2) = Inr 2 \<and>
   deref (snd (check_task always_alive ''t3'' world2)) 2 = [] \<and>
   stop_task ''t3'' world2 = (False, world2) \<and>
   ''t3'' \<notin> set (started_ids calls2) \<and>
   \<not> present (run calls2 (MCPCHelper ''demo'')) ''t3''"
proof -
  have p3: "\<not> present world2 ''t3''"
    by (simp add: present_def world2_eq)
  have len: "length (heap world2) = 2"
    by (simp add: world2_eq)
  have ids: "''t3'' \<notin> set (started_ids calls2)"
    by (simp add: calls2_def)
  from unknown_task_is_no_error [of world2 "''t3''" always_alive calls2 "''demo''"] p3 ids len
  show ?thesis by (simp add: deref_def nth_append)
qed

subsection \<open>The invariant of the registry\<close>

text \<open>
  C2. In every state that a sequence of calls of the public operations reaches from a
  new helper, every task id in the registry has a record that holds an existing thread
  object under \<open>thread\<close> and \<open>running\<close> or \<open>stopping\<close> under \<open>status\<close>. In such a
  state \<open>start_task\<close> leaves \<open>running\<close> as the status of its task id and \<open>stop_task\<close>
  leaves \<open>stopping\<close> as the status of a present task id, and neither touches the status
  of another task id; \<open>check_task\<close>, whatever the liveness of the threads, changes no
  status; \<open>cleanup_task\<close> only drops the status of its task id.
\<close>

theorem registry_invariant:
  assumes "w = run cs (MCPCHelper name)"
  shows "(\<forall>tid. present w tid \<longrightarrow>
            (\<exists>d t. record_of w tid = Some d \<and>
                   map_of d ''thread'' = Some (PyThread t) \<and> t < length (threads w) \<and>
                   (map_of d ''status'' = Some (PyStr ''running'') \<or>
                    map_of d ''status'' = Some (PyStr ''stopping'')))) \<and>
         (\<forall>tid tid' f args kwargs now.
            status_of (start_task tid f args kwargs now w) tid' =
              (if tid' = tid then Some (PyStr ''running'') else status_of w tid')) \<and>
         (\<forall>tid tid'.
            status_of (snd (stop_task tid w)) tid' =
              (if tid' = tid \<and> present w tid then Some (PyStr ''stopping'')
               else status_of w tid')) \<and>
         (\<forall>a tid tid'. status_of (snd (check_task a tid w)) tid' = status_of w tid') \<and>
         (\<forall>tid tid'.
            status_of (cleanup_task tid w) tid' =
              (if tid' = tid then None else status_of w tid'))"
proof -
  have "wf_world (MCPCHelper name) \<and> registry_inv (MCPCHelper name)"
    by (simp add: wf_world_MCPCHelper registry_inv_MCPCHelper)
  then have "wf_world (run cs (MCPCHelper name)) \<and> registry_inv (run cs (MCPCHelper name))"
    by (rule inv_run)
  with assms have wf: "wf_world w" and inv: "registry_inv w" by simp_all
  from inv have records: "\<forall>tid. present w tid \<longrightarrow>
            (\<exists>d t. record_of w tid = Some d \<and>
                   map_of d ''thread'' = Some (PyThread t) \<and> t < length (threads w) \<and>
                   (map_of d ''status'' = Some (PyStr ''running'') \<or>
                    map_of d ''status'' = Some (PyStr ''stopping'')))"
    by (blast dest: registry_inv_present)
  from wf have start: "\<forall>tid tid' f args kwargs now.
            status_of (start_task tid f args kwargs now w) tid' =
              (if tid' = tid then Some (PyStr ''running'') else status_of w tid')"
    by (simp add: status_of_start_task)
  from wf have stop: "\<forall>tid tid'.
            status_of (snd (stop_task tid w)) tid' =
              (if tid' = tid \<and> present w tid then Some (PyStr ''stopping'')
               else status_of w tid')"
    by (simp add: status_of_stop_task)
  have check: "\<forall>a tid tid'. status_of (snd (check_task a tid w)) tid' = status_of w tid'"
    by (simp add: status_of_check_task)
  have cleanup: "\<forall>tid tid'.
            status_of (cleanup_task tid w) tid' =
              (if tid' = tid then None else status_of w tid')"
    by (simp add: status_of_cleanup_task)
  from records start stop check cleanup show ?thesis by (intro conjI)
qed

theorem registry_invariant_witness:
  "world2 = run calls2 (MCPCHelper ''demo'') \<and> present world2 ''t2'' \<and>
   (\<exists>d t. record_of world2 ''t2'' = Some d \<and>
          map_of d ''thread'' = Some (PyThread t) \<and> t < length (threads world2) \<and>
          (map_of d ''status'' = Some (PyStr ''running'') \<or>
           map_of d ''status'' = Some (PyStr ''stopping''))) \<and>
   status_of (snd (check_task never_alive ''t2'' world2)) ''t2'' = Some (PyStr ''running'') \<and>
   status_of (snd (stop_task ''t2'' world2)) ''t2'' = Some (PyStr ''stopping'') \<and>
   status_of (snd (stop_task ''t2'' world2)) ''t1'' = Some (PyStr ''running'') \<and>
   status_of (cleanup_task ''t2'' world2) ''t2'' = None"
proof -
  have w: "world2 = run calls2 (MCPCHelper ''demo'')"
    by (simp add: run_calls2)
  have p: "present world2 ''t2''"
    by (simp add: present_def world2_eq)
  have s: "status_of world2 ''t2'' = Some (PyStr ''running'')"
    "status_of world2 ''t1'' = Some (PyStr ''running'')"
    by (simp_all add: status_of_def record_of_def deref_def world2_eq)
  from registry_invariant [OF w] p s w show ?thesis by simp
qed

subsection \<open>The frame of a stop request\<close>

text \<open>
  C10. In a well-formed state, \<open>stop_task\<close> on a present task id changes nothing but
  the entry under \<open>status\<close> of that task's record: every other key of the record
  (\<open>thread\<close> and \<open>start_time\<close> among them), every other dictionary object, the record
  of every other task id, the registry's entries, the threads, the log and the output
  stream are as before.
\<close>

theorem stop_task_frame:
  assumes "wf_world w" and "map_of (background_tasks w) tid = Some r"
  shows "(\<forall>k. k \<noteq> ''status'' \<longrightarrow>
            map_of (deref (snd (stop_task tid w)) r) k = map_of (deref w r) k) \<and>
         (\<forall>r'. r' \<noteq> r \<longrightarrow> deref (snd (stop_task tid w)) r' = deref w r') \<and>
         (\<forall>tid'. tid' \<noteq> tid \<longrightarrow>
            record_of (snd (stop_task tid w)) tid' = record_of w tid') \<and>
         background_tasks (snd (stop_task tid w)) = background_tasks w \<and>
         threads (snd (stop_task tid w)) = threads w \<and>
         log_records (snd (stop_task tid w)) = log_records w \<and>
         stdout (snd (stop_task tid w)) = stdout w"
proof -
  have keys: "\<forall>k. k \<noteq> ''status'' \<longrightarrow>
            map_of (deref (snd (stop_task tid w)) r) k = map_of (deref w r) k"
    by (simp add: stop_task_keeps_keys)
  from assms(2) have objs: "\<forall>r'. r' \<noteq> r \<longrightarrow> deref (snd (stop_task tid w)) r' = deref w r'"
    by (simp add: stop_task_def deref_setitem)
  have "record_of (snd (stop_task tid w)) tid' = record_of w tid'" if "tid' \<noteq> tid" for tid'
  proof (cases "map_of (background_tasks w) tid'")
    case None
    then show ?thesis by (simp add: record_of_def stop_task_background_tasks)
  next
    case (Some r')
    with assms that have "r' \<noteq> r" by (intro wf_world_unshared [of w tid r tid' r'])
    with objs Some show ?thesis by (simp add: record_of_def stop_task_background_tasks)
  qed
  then have others: "\<forall>tid'. tid' \<noteq> tid \<longrightarrow>
            record_of (snd (stop_task tid w)) tid' = record_of w tid'"
    by simp
  from assms(2) have rest: "log_records (snd (stop_task tid w)) = log_records w"
    "stdout (snd (stop_task tid w)) = stdout w"
    by (simp_all add: stop_task_def setitem_fields)
  from keys objs others rest show ?thesis
    by (simp add: stop_task_background_tasks stop_task_threads)
qed

theorem stop_task_frame_witness:
  "wf_world world2 \<and> map_of (background_tasks world2) ''t1'' = Some 0 \<and>
   map_of (deref (snd (stop_task ''t1'' world2)) 0) ''thread'' = Some (PyThread 0) \<and>
   map_of (deref (snd (stop_task ''t1'' world2)) 0) ''start_time'' = Some (PyFloat 1000) \<and>
   deref (snd (stop_task ''t1'' world2)) 1 = deref world2 1 \<and>
   record_of (snd (stop_task ''t1'' world2)) ''t2'' = record_of world2 ''t2'' \<and>
   threads (snd (stop_task ''t1'' world2)) = threads world2"
proof -
  have r: "map_of (background_tasks world2) ''t1'' = Some 0"
    by (simp add: world2_eq)
  have d: "map_of (deref world2 0) ''thread'' = Some (PyThread 0)"
    "map_of (deref world2 0) ''start_time'' = Some (PyFloat 1000)"
    by (simp_all add: deref_def world2_eq)
  from stop_task_frame [OF wf_world2 r] r d wf_world2 show ?thesis by simp
qed

subsection \<open>Looking a task up\<close>

text \<open>
  C1, as stated, fails. After \<open>start_task("t1", ...)\<close> on a new helper,
  \<open>check_task("t1")\<close> returns the dictionary object that the registry stores (address
  0), the stored record differs from what it was before the call (it has gained
  \<open>is_running\<close>), and an assignment through the returned reference changes the record
  that the registry holds.
\<close>

theorem check_task_snapshot_counterexample:
  "present world1 ''t1'' \<and>
   map_of (background_tasks world1) ''t1'' = Some 0 \<and>
   fst (check_task always_alive ''t1'' world1) = Inr 0 \<and>
   record_of (snd (check_task always_alive ''t1'' world1)) ''t1'' \<noteq> record_of world1 ''t1'' \<and>
   record_of (setitem 0 ''status'' (PyStr ''edited'')
                (snd (check_task always_alive ''t1'' world1))) ''t1''
     \<noteq> record_of (snd (check_task always_alive ''t1'' world1)) ''t1''"
  by (simp add: present_def record_of_def check_task_def Let_def deref_def setitem_def
      always_alive_def world1_eq)


text \<open>
  C1, amended. In a well-formed state, for a present task id whose record holds a
  thread object under \<open>thread\<close>, \<open>check_task\<close> raises nothing and returns the stored
  record object itself, not a copy, after storing under \<open>is_running\<close> in it the
  liveness of that thread as polled by this call. Every other key of the record, every
  other dictionary object and the registry's entries are unchanged; an assignment
  through the returned reference is an assignment to the record the registry holds.
\<close>

theorem check_task_returns_stored_record:
  assumes "wf_world w" and "map_of (background_tasks w) tid = Some r"
    and "map_of (deref w r) ''thread'' = Some (PyThread t)"
  shows "check_task a tid w = (Inr r, setitem r ''is_running'' (PyBool (a t)) w) \<and>
         record_of (snd (check_task a tid w)) tid = Some (deref (snd (check_task a tid w)) r) \<and>
         map_of (deref (snd (check_task a tid w)) r) ''is_running'' = Some (PyBool (a t)) \<and>
         (\<forall>k. k \<noteq> ''is_running'' \<longrightarrow>
            map_of (deref (snd (check_task a tid w)) r) k = map_of (deref w r) k) \<and>
         (\<forall>r'. r' \<noteq> r \<longrightarrow> deref (snd (check_task a tid w)) r' = deref w r') \<and>
         background_tasks (snd (check_task a tid w)) = background_tasks w \<and>
         (\<forall>k v. record_of (setitem r k v (snd (check_task a tid w))) tid =
                  Some (AList.update k v (deref (snd (check_task a tid w)) r)))"
proof -
  from assms(1,2) have r: "r < length (heap w)" by (rule wf_world_ref)
  from assms(3) have ne: "deref w r \<noteq> []" by auto
  from assms(2,3) ne
  have eq: "check_task a tid w = (Inr r, setitem r ''is_running'' (PyBool (a t)) w)"
    by (simp add: check_task_def Let_def)
  from assms(2) have stored:
    "record_of (snd (check_task a tid w)) tid = Some (deref (snd (check_task a tid w)) r)"
    by (simp add: record_of_def check_task_background_tasks)
  from r have flag:
    "map_of (deref (snd (check_task a tid w)) r) ''is_running'' = Some (PyBool (a t))"
    by (simp add: eq deref_setitem update_conv')
  have keys: "\<forall>k. k \<noteq> ''is_running'' \<longrightarrow>
            map_of (deref (snd (check_task a tid w)) r) k = map_of (deref w r) k"
    by (simp add: check_task_keeps_keys)
  have objs: "\<forall>r'. r' \<noteq> r \<longrightarrow> deref (snd (check_task a tid w)) r' = deref w r'"
    by (simp add: eq deref_setitem)
  from assms(2) r have shared: "\<forall>k v. record_of (setitem r k v (snd (check_task a tid w))) tid =
                  Some (AList.update k v (deref (snd (check_task a tid w)) r))"
    by (simp add: record_of_def eq setitem_fields deref_setitem)
  have entries: "background_tasks (snd (check_task a tid w)) = background_tasks w"
    by (rule check_task_background_tasks)
  show ?thesis
    by (intro conjI eq stored flag keys objs entries shared)
qed

theorem check_task_returns_stored_record_witness:
  "wf_world world2 \<and> map_of (background_tasks world2) ''t2'' = Some 1 \<and>
   map_of (deref world2 1) ''thread'' = Some (PyThread 1) \<and>
   fst (check_task never_alive ''t2'' world2) = Inr 1 \<and>
   map_of (deref (snd (check_task never_alive ''t2'' world2)) 1) ''is_running'' =
     Some (PyBool False) \<and>
   map_of (deref (snd (check_task never_alive ''t2'' world2)) 1) ''status'' =
     Some (PyStr ''running'') \<and>
   deref (snd (check_task never_alive ''t2'' world2)) 0 = deref world2 0"
proof -
  have r: "map_of (background_tasks world2) ''t2'' = Some 1"
    by (simp add: world2_eq)
  have d: "map_of (deref world2 1) ''thread'' = Some (PyThread 1)"
    by (simp add: deref_def world2_eq)
  have s: "map_of (deref world2 1) ''status'' = Some (PyStr ''running'')"
    by (simp add: deref_def world2_eq)
  have n: "never_alive 1 = False"
    by (simp add: never_alive_def)
  from check_task_returns_stored_record [OF wf_world2 r d, of never_alive]
    wf_world2 r d s n
  show ?thesis
    by (simp add: deref_setitem update_conv' world2_eq)
qed

subsection \<open>Starting a task twice\<close>

lemma count_key:
  "distinct (map fst al) \<Longrightarrow>
     length (filter (\<lambda>p. fst p = k) al) = (if k \<in> fst ` set al then 1 else 0)"
  by (induction al) (auto simp: image_iff)

lemma count_key_update:
  assumes "distinct (map fst al)"
  shows "length (filter (\<lambda>p. fst p = k) (AList.update k v al)) = 1"
proof -
  from assms have "distinct (map fst (AList.update k v al))" by (rule distinct_update)
  then show ?thesis by (simp add: count_key dom_update)
qed

text \<open>
  C6. \<open>start_task\<close> has no raising step in the model (creating and starting the thread
  are taken to succeed). It stores under \<open>task_id\<close> a new record with the new thread,
  the time of the call and the status \<open>running\<close>. When it is called a second time with
  the same \<open>task_id\<close>, the registry has exactly one entry for that id, the entry's
  record holds the thread of the second call, which is a different thread object, and
  the first call's thread object and record object still exist as the first call left
  them: the thread is started and nothing has been done to it.
\<close>

theorem start_task_overwrites:
  assumes "distinct (map fst (background_tasks w))"
    and "w' = start_task tid f args kwargs now w"
    and "w'' = start_task tid g args' kwargs' now' w'"
  shows "record_of w' tid =
           Some [(''thread'', PyThread (length (threads w))),
                 (''start_time'', PyFloat now), (''status'', PyStr ''running'')] \<and>
         length (filter (\<lambda>p. fst p = tid) (background_tasks w')) = 1 \<and>
         length (filter (\<lambda>p. fst p = tid) (background_tasks w'')) = 1 \<and>
         record_of w'' tid =
           Some [(''thread'', PyThread (Suc (length (threads w)))),
                 (''start_time'', PyFloat now'), (''status'', PyStr ''running'')] \<and>
         length (threads w'') = Suc (Suc (length (threads w))) \<and>
         threads w'' ! length (threads w) = threads w' ! length (threads w) \<and>
         started (threads w'' ! length (threads w)) \<and>
         started (threads w'' ! Suc (length (threads w))) \<and>
         deref w'' (length (heap w)) = deref w' (length (heap w))"
proof -
  have first: "record_of w' tid =
           Some [(''thread'', PyThread (length (threads w))),
                 (''start_time'', PyFloat now), (''status'', PyStr ''running'')]"
    by (simp add: assms(2) record_of_def start_task_background_tasks update_conv'
        deref_start_task)
  from assms(1) have once: "length (filter (\<lambda>p. fst p = tid) (background_tasks w')) = 1"
    by (simp add: assms(2) start_task_background_tasks count_key_update)
  from assms(1) have "distinct (map fst (background_tasks w'))"
    by (simp add: assms(2) start_task_background_tasks distinct_update)
  then have once': "length (filter (\<lambda>p. fst p = tid) (background_tasks w'')) = 1"
    by (simp add: assms(3) start_task_background_tasks count_key_update)
  have grown: "length (threads w') = Suc (length (threads w))"
    by (simp add: assms(2) start_task_threads)
  have second: "record_of w'' tid =
           Some [(''thread'', PyThread (Suc (length (threads w)))),
                 (''start_time'', PyFloat now'), (''status'', PyStr ''running'')]"
    by (simp add: assms(3) record_of_def start_task_background_tasks update_conv'
        deref_start_task grown)
  have grown': "length (threads w'') = Suc (Suc (length (threads w)))"
    by (simp add: assms(3) start_task_threads grown)
  have old: "threads w'' ! length (threads w) = threads w' ! length (threads w)"
    by (simp add: assms(3) start_task_threads nth_append grown)
  have st: "started (threads w' ! length (threads w))"
    by (simp add: assms(2) start_task_threads)
  with old have st_old: "started (threads w'' ! length (threads w))" by simp
  have st_new: "started (threads w'' ! Suc (length (threads w)))"
    using grown by (simp add: assms(3) start_task_threads nth_append)
  have "length (heap w') = Suc (length (heap w))"
    by (simp add: assms(2) start_task_heap)
  then have obj: "deref w'' (length (heap w)) = deref w' (length (heap w))"
    by (simp add: assms(3) deref_start_task)
  show ?thesis
    by (intro conjI first once once' second grown' old st_old st_new obj)
qed

theorem start_task_overwrites_witness:
  "distinct (map fst (background_tasks world2)) \<and>
   record_of (start_task ''t1'' workB [] None 1002 world2) ''t1'' =
     Some [(''thread'', PyThread 2), (''start_time'', PyFloat 1002),
           (''status'', PyStr ''running'')] \<and>
   length (filter (\<lambda>p. fst p = ''t1'')
     (background_tasks
        (start_task ''t1'' workA [] None 1003
           (start_task ''t1'' workB [] None 1002 world2)))) = 1 \<and>
   record_of (start_task ''t1'' workA [] None 1003
                (start_task ''t1'' workB [] None 1002 world2)) ''t1'' =
     Some [(''thread'', PyThread 3), (''start_time'', PyFloat 1003),
           (''status'', PyStr ''running'')] \<and>
   started (threads (start_task ''t1'' workA [] None 1003
                       (start_task ''t1'' workB [] None 1002 world2)) ! 2)"
proof -
  have d: "distinct (map fst (background_tasks world2))"
    by (simp add: world2_eq)
  have n: "length (threads world2) = 2"
    by (simp add: world2_eq)
  note th = start_task_overwrites [OF d refl refl, where tid = "''t1''" and f = workB
      and args = "[]" and kwargs = None and now = 1002 and g = workA and args' = "[]"
      and kwargs' = None and now' = 1003]
  from th n have first: "record_of (start_task ''t1'' workB [] None 1002 world2) ''t1'' =
     Some [(''thread'', PyThread 2), (''start_time'', PyFloat 1002),
           (''status'', PyStr ''running'')]"
    by simp
  from th have once: "length (filter (\<lambda>p. fst p = ''t1'')
     (background_tasks
        (start_task ''t1'' workA [] None 1003
           (start_task ''t1'' workB [] None 1002 world2)))) = 1"
    by simp
  from th n have second: "record_of (start_task ''t1'' workA [] None 1003
                (start_task ''t1'' workB [] None 1002 world2)) ''t1'' =
     Some [(''thread'', PyThread 3), (''start_time'', PyFloat 1003),
           (''status'', PyStr ''running'')]"
    by simp
  from th [unfolded n]
  have old: "started (threads (start_task ''t1'' workA [] None 1003
                       (start_task ''t1'' workB [] None 1002 world2)) ! 2)"
    by blast
  show ?thesis
    by (intro conjI d first once second old)
qed

subsection \<open>Building a status message\<close>

text \<open>
  C7. For all arguments and every state, \<open>create_message\<close> returns the state as it was
  (the registry, the records, the threads, the log and the output stream) together with
  a message whose five fields \<open>session_id\<close>, \<open>task_id\<close>, \<open>tool_name\<close>, \<open>result\<close> and
  \<open>status\<close> are the arguments of those names; the message has no further field.
\<close>

theorem create_message_pure:
  "snd (create_message tn sid tk res st w) = w \<and>
   fst (create_message tn sid tk res st w) =
     \<lparr>session_id = sid, task_id = tk, tool_name = tn, result = res, status = st\<rparr> \<and>
   session_id (fst (create_message tn sid tk res st w)) = sid \<and>
   task_id (fst (create_message tn sid tk res st w)) = tk \<and>
   tool_name (fst (create_message tn sid tk res st w)) = tn \<and>
   result (fst (create_message tn sid tk res st w)) = res \<and>
   status (fst (create_message tn sid tk res st w)) = st \<and>
   MCPCMessage.more (fst (create_message tn sid tk res st w)) = ()"
  by (simp add: create_message_def)

subsection \<open>Sending a message\<close>

text \<open>
  C8. \<open>send_direct\<close> never raises: its result is always a boolean. When the
  serialisation, the write and the flush succeed, the result is \<open>True\<close> and the output
  stream has delivered everything written before followed by the serialised envelope and
  a newline, with nothing left pending. When the serialisation raises, or the write
  raises, or the flush raises, the result is \<open>False\<close>. In every case the registry, the
  records and the threads are unchanged.
\<close>

theorem send_direct_never_raises:
  "(\<exists>b. fst (send_direct env m w) = Inr b) \<and>
   (\<forall>s. model_dump_json env
          (JSONRPCMessage (JSONRPCResponse ''2.0'' ''MCPC_CALLBACK''
             \<lparr>content = [TextContent m ''text''], isError = False\<rparr>)) = Inr s \<and>
        write_outcome env = None \<and> flush_outcome env = None \<longrightarrow>
        fst (send_direct env m w) = Inr True \<and>
        stdout (snd (send_direct env m w)) =
          \<lparr>pending = [],
           delivered = delivered (stdout w) @ pending (stdout w) @ s @ [CHR 0x0A]\<rparr>) \<and>
   (\<forall>e. model_dump_json env
          (JSONRPCMessage (JSONRPCResponse ''2.0'' ''MCPC_CALLBACK''
             \<lparr>content = [TextContent m ''text''], isError = False\<rparr>)) = Inl e \<longrightarrow>
        fst (send_direct env m w) = Inr False \<and>
        stdout (snd (send_direct env m w)) = stdout w) \<and>
   (write_outcome env \<noteq> None \<longrightarrow> fst (send_direct env m w) = Inr False) \<and>
   (flush_outcome env \<noteq> None \<longrightarrow> fst (send_direct env m w) = Inr False) \<and>
   background_tasks (snd (send_direct env m w)) = background_tasks w \<and>
   heap (snd (send_direct env m w)) = heap w \<and>
   threads (snd (send_direct env m w)) = threads w"
proof -
  have total: "\<exists>b. fst (send_direct env m w) = Inr b"
    by (auto simp: send_direct_def split: prod.splits sum.splits)
  have ok: "\<forall>s. model_dump_json env
          (JSONRPCMessage (JSONRPCResponse ''2.0'' ''MCPC_CALLBACK''
             \<lparr>content = [TextContent m ''text''], isError = False\<rparr>)) = Inr s \<and>
        write_outcome env = None \<and> flush_outcome env = None \<longrightarrow>
        fst (send_direct env m w) = Inr True \<and>
        stdout (snd (send_direct env m w)) =
          \<lparr>pending = [],
           delivered = delivered (stdout w) @ pending (stdout w) @ s @ [CHR 0x0A]\<rparr>"
    by (simp add: send_direct_def send_direct_try_def Let_def stdout_write_def
        stdout_flush_def logger_info_def)
  have ser: "\<forall>e. model_dump_json env
          (JSONRPCMessage (JSONRPCResponse ''2.0'' ''MCPC_CALLBACK''
             \<lparr>content = [TextContent m ''text''], isError = False\<rparr>)) = Inl e \<longrightarrow>
        fst (send_direct env m w) = Inr False \<and>
        stdout (snd (send_direct env m w)) = stdout w"
    by (simp add: send_direct_def send_direct_try_def Let_def logger_error_def)
  have wr: "write_outcome env \<noteq> None \<longrightarrow> fst (send_direct env m w) = Inr False"
    by (auto simp: send_direct_def send_direct_try_def Let_def stdout_write_def
        split: sum.splits)
  have fl: "flush_outcome env \<noteq> None \<longrightarrow> fst (send_direct env m w) = Inr False"
    by (auto simp: send_direct_def send_direct_try_def Let_def stdout_write_def
        stdout_flush_def split: sum.splits option.splits)
  show ?thesis
    by (intro conjI total ok ser wr fl send_direct_fields)
qed

theorem send_direct_never_raises_witness:
  "fst (send_direct env_ok ''hello'' world2) = Inr True \<and>
   stdout (snd (send_direct env_ok ''hello'' world2)) =
     \<lparr>pending = [],
      delivered = ''{jsonrpc:2.0,id:MCPC_CALLBACK,result:{text:hello}}'' @ [CHR 0x0A]\<rparr> \<and>
   write_outcome env_closed \<noteq> None \<and>
   fst (send_direct env_closed ''hello'' world2) = Inr False \<and>
   flush_outcome env_pipe \<noteq> None \<and>
   fst (send_direct env_pipe ''hello'' world2) = Inr False"
proof -
  have s: "model_dump_json env_ok
          (JSONRPCMessage (JSONRPCResponse ''2.0'' ''MCPC_CALLBACK''
             \<lparr>content = [TextContent ''hello'' ''text''], isError = False\<rparr>)) =
        Inr ''{jsonrpc:2.0,id:MCPC_CALLBACK,result:{text:hello}}''"
    and o: "write_outcome env_ok = None" "flush_outcome env_ok = None"
    by (simp_all add: env_ok_def)
  have c: "write_outcome env_closed \<noteq> None" and p: "flush_outcome env_pipe \<noteq> None"
    by (simp_all add: env_closed_def env_pipe_def)
  have out: "stdout world2 = \<lparr>pending = [], delivered = []\<rparr>"
    by (simp add: world2_eq)
  from send_direct_never_raises [of env_ok "''hello''" world2] s o out
  have a: "fst (send_direct env_ok ''hello'' world2) = Inr True"
    and b: "stdout (snd (send_direct env_ok ''hello'' world2)) =
     \<lparr>pending = [],
      delivered = ''{jsonrpc:2.0,id:MCPC_CALLBACK,result:{text:hello}}'' @ [CHR 0x0A]\<rparr>"
    by simp_all
  from send_direct_never_raises [of env_closed "''hello''" world2] c
  have d: "fst (send_direct env_closed ''hello'' world2) = Inr False" by blast
  from send_direct_never_raises [of env_pipe "''hello''" world2] p
  have e: "fst (send_direct env_pipe ''hello'' world2) = Inr False" by blast
  from a b c d p e show ?thesis by simp
qed

end
